theory Spec2Isabelle
  imports Complex_Main
begin

section \<open>Numbers\<close>

text \<open>
  The values handled by \<^verbatim>\<open>WeightedAverage\<close> are JavaScript numbers. The finite ones are
  modelled as exact rationals (rounding of the one division in \<^verbatim>\<open>record\<close> is not
  modelled; comparisons, which decide minima and maxima, are exact in both worlds). The
  two accumulators start at \<^verbatim>\<open>Number.NEGATIVE_INFINITY\<close> and
  \<^verbatim>\<open>Number.POSITIVE_INFINITY\<close>, hence the two extra constructors.
\<close>

datatype jsnum = NegInf | Fin rat | PosInf

text \<open>The JavaScript comparison \<^verbatim>\<open>a < b\<close> on such numbers.\<close>

fun num_less :: "jsnum \<Rightarrow> jsnum \<Rightarrow> bool" where
  "num_less NegInf NegInf = False"
| "num_less NegInf (Fin b) = True"
| "num_less NegInf PosInf = True"
| "num_less (Fin a) NegInf = False"
| "num_less (Fin a) (Fin b) = (a < b)"
| "num_less (Fin a) PosInf = True"
| "num_less PosInf b = False"

section \<open>The class \<^verbatim>\<open>WeightedAverage\<close>\<close>

text \<open>
  The fields \<^verbatim>\<open>max\<close> and \<^verbatim>\<open>min\<close> are renamed \<open>max_wa\<close> and \<open>min_wa\<close>. The window
  length \<^verbatim>\<open>len\<close> only bounds two counting loops, so a natural number stands for it (a
  length below one runs neither loop).
\<close>

record WeightedAverage =
  len :: nat
  every :: rat
  val :: "rat list"
  cnt :: nat
  max_wa :: jsnum
  min_wa :: jsnum

text \<open>The constructor fills the window with \<^verbatim>\<open>len\<close> zeros.\<close>

definition WeightedAverage_constructor :: "nat \<Rightarrow> rat \<Rightarrow> WeightedAverage" where
  "WeightedAverage_constructor l e =
     \<lparr> len = l, every = e, val = replicate l 0, cnt = 0, max_wa = NegInf, min_wa = PosInf \<rparr>"

text \<open>The object handed to the callback of \<^verbatim>\<open>record\<close>; \<open>avg = None\<close> stands for the
  \<^verbatim>\<open>NaN\<close> that \<^verbatim>\<open>0 / 0\<close> gives when the loop never ran.\<close>

record StatSample =
  avg :: "rat option"
  min_s :: jsnum
  max_s :: jsnum
  tmin :: jsnum
  tmax :: jsnum

text \<open>
  The loop of \<^verbatim>\<open>record\<close>, from index \<open>i\<close> on, over the accumulators
  \<^verbatim>\<open>(avg, div, max, min)\<close>:
  \<^verbatim>\<open>
  for (let i = 0; i < this.len; i++) {
      if (max < this.val[i]) max = this.val[i]
      if (min > this.val[i]) min = this.val[i]
      const k = this.len - i
      avg += this.val[i] * k
      div += k
  }
  \<close>
  The constructor and \<^verbatim>\<open>record\<close> keep the window at the length \<^verbatim>\<open>len\<close> whenever \<^verbatim>\<open>len\<close>
  is at least 1 (\<open>window_after\<close> below), and for a smaller \<^verbatim>\<open>len\<close> the loop does not run,
  so no read of the loop falls outside the window.
\<close>

function record_loop ::
  "nat \<Rightarrow> rat list \<Rightarrow> nat \<Rightarrow> rat \<times> rat \<times> jsnum \<times> jsnum \<Rightarrow> rat \<times> rat \<times> jsnum \<times> jsnum" where
  "record_loop n vs i (a, d, mx, mn) =
     (if i < n then
        let x = vs ! i;
            mx' = (if num_less mx (Fin x) then Fin x else mx);
            mn' = (if num_less (Fin x) mn then Fin x else mn);
            k = of_nat (n - i)
        in record_loop n vs (i + 1) (a + x * k, d + k, mx', mn')
      else (a, d, mx, mn))"
  by pat_completeness auto
termination
  by (relation "measure (\<lambda>(n, vs, i, acc). n - i)") auto

declare record_loop.simps [simp del]

text \<open>
  \<^verbatim>\<open>record (val, callback)\<close>: the new state and the sample passed to the callback, if
  the callback is called.
  \<^verbatim>\<open>
  this.val.pop()
  this.val.unshift(val)
  ... the loop ...
  avg /= div
  if (this.max < max) this.max = max
  if (this.min > max) this.min = max
  if (this.cnt++ > this.every) {
      this.cnt = 0
      callback({ avg, min, max, tmin: this.min, tmax: this.max })
  }
  \<close>
\<close>

definition WeightedAverage_record ::
  "WeightedAverage \<Rightarrow> rat \<Rightarrow> WeightedAverage \<times> StatSample option" where
  "WeightedAverage_record t v =
     (let vals = v # butlast (val t);
          (a, d, mx, mn) = record_loop (len t) vals 0 (0, 0, NegInf, PosInf);
          av = (if d = 0 then None else Some (a / d));
          tmx = (if num_less (max_wa t) mx then mx else max_wa t);
          tmn = (if num_less mx (min_wa t) then mx else min_wa t);
          emit = (of_nat (cnt t) > every t)
      in (t \<lparr> val := vals, max_wa := tmx, min_wa := tmn,
              cnt := (if emit then 0 else cnt t + 1) \<rparr>,
          if emit
          then Some \<lparr> avg = av, min_s = mn, max_s = mx, tmin = tmn, tmax = tmx \<rparr>
          else None))"

text \<open>A sequence of \<^verbatim>\<open>record\<close> calls, oldest value first; the callbacks' samples are dropped.\<close>

definition record_all :: "WeightedAverage \<Rightarrow> rat list \<Rightarrow> WeightedAverage" where
  "record_all t vs = foldl (\<lambda>t v. fst (WeightedAverage_record t v)) t vs"

text \<open>The two conditional assignments of the loop, named for the proofs.\<close>

definition num_max :: "jsnum \<Rightarrow> rat \<Rightarrow> jsnum" where
  "num_max m x = (if num_less m (Fin x) then Fin x else m)"

definition num_min :: "jsnum \<Rightarrow> rat \<Rightarrow> jsnum" where
  "num_min m x = (if num_less (Fin x) m then Fin x else m)"

text \<open>The unweighted mean of a list of inputs.\<close>

definition mean :: "rat list \<Rightarrow> rat" where
  "mean vs = sum_list vs / of_nat (length vs)"

text \<open>
  Two properties of a sample, as decidable predicates. \<open>within_recorded N vs s\<close>: among the
  last \<open>N\<close> of the recorded inputs \<open>vs\<close> (oldest first) there is one that the window
  maximum of \<open>s\<close> does not exceed, and one that its window minimum does not fall below.
  \<open>exceeds_mean vs s\<close>: the average of \<open>s\<close> is a number strictly above the mean of \<open>vs\<close>.
\<close>

definition within_recorded :: "nat \<Rightarrow> rat list \<Rightarrow> StatSample \<Rightarrow> bool" where
  "within_recorded N vs s =
     (list_ex (\<lambda>v. \<not> num_less (Fin v) (max_s s)) (take N (rev vs)) \<and>
      list_ex (\<lambda>v. \<not> num_less (min_s s) (Fin v)) (take N (rev vs)))"

definition exceeds_mean :: "rat list \<Rightarrow> StatSample \<Rightarrow> bool" where
  "exceeds_mean vs s = (case avg s of None \<Rightarrow> False | Some a \<Rightarrow> mean vs < a)"

section \<open>The class \<^verbatim>\<open>Browser\<close>\<close>

subsection \<open>Data\<close>

text \<open>
  The configuration object \<^verbatim>\<open>cfg\<close>, with the fields that the modelled code branches on,
  each under the name \<open>cfg_\<close> and its letter: title \<^verbatim>\<open>t\<close> (\<open>None\<close> is \<^verbatim>\<open>null\<close>), URL
  \<^verbatim>\<open>u\<close>, target frame rate \<^verbatim>\<open>f\<close> (the integer that \<^verbatim>\<open>parseInt\<close> reads; a text that
  \<^verbatim>\<open>parseInt\<close> cannot read is not modelled) and the flags \<^verbatim>\<open>D\<close> (visible window),
  \<^verbatim>\<open>N\<close> (network video) and \<^verbatim>\<open>P\<close> (preview). The remaining fields (size, position,
  colour, pinning) only travel into the options of the window and are left out. A
  \<open>patch\<close> is the partial object that \<^verbatim>\<open>reconfigure\<close> merges in; \<open>None\<close> is an absent
  property.
\<close>

record config =
  cfg_t :: "string option"
  cfg_u :: string
  cfg_f :: int
  cfg_D :: bool
  cfg_N :: bool
  cfg_P :: bool

record patch =
  p_t :: "string option option"
  p_u :: "string option"
  p_f :: "int option"
  p_D :: "bool option"
  p_N :: "bool option"
  p_P :: "bool option"

text \<open>\<^verbatim>\<open>Object.assign(this.cfg, cfg)\<close>\<close>

definition Object_assign :: "config \<Rightarrow> patch \<Rightarrow> config" where
  "Object_assign c p =
     \<lparr> cfg_t = (case p_t p of None \<Rightarrow> cfg_t c | Some v \<Rightarrow> v),
       cfg_u = (case p_u p of None \<Rightarrow> cfg_u c | Some v \<Rightarrow> v),
       cfg_f = (case p_f p of None \<Rightarrow> cfg_f c | Some v \<Rightarrow> v),
       cfg_D = (case p_D p of None \<Rightarrow> cfg_D c | Some v \<Rightarrow> v),
       cfg_N = (case p_N p of None \<Rightarrow> cfg_N c | Some v \<Rightarrow> v),
       cfg_P = (case p_P p of None \<Rightarrow> cfg_P c | Some v \<Rightarrow> v) \<rparr>"

text \<open>
  Windows and \<^verbatim>\<open>Browser\<close> objects are referred to by handles. A \<^verbatim>\<open>Browser\<close> object is
  shared between the registry, the callbacks registered on its window and the timer of
  \<^verbatim>\<open>stop\<close>, so the objects live in a store and everything else holds references. The field
  \<^verbatim>\<open>id\<close> is renamed \<open>id_b\<close>; \<^verbatim>\<open>mainWin\<close> is the one console window and is left out.
\<close>

type_synonym handle = nat
type_synonym ref = nat

record Browser =
  id_b :: string
  cfg :: config
  win :: "handle option"
  subscribed :: bool
  ndiSender :: "string option"
  ndiFramesToSkip :: jsnum
  frames :: int
  burst :: "WeightedAverage option"
  factor :: rat
  framerate :: int

text \<open>The exceptions of the modelled code, and what a call gives back besides the state.\<close>

datatype error =
    InvalidBrowserId         \<comment> \<open>\<^verbatim>\<open>"invalid browser id"\<close>\<close>
  | BrowserAlreadyRunning    \<comment> \<open>\<^verbatim>\<open>"browser already running"\<close>\<close>
  | BrowserStillNotRunning   \<comment> \<open>\<^verbatim>\<open>"browser still not running"\<close>\<close>
  | StillNotStarted          \<comment> \<open>\<^verbatim>\<open>"still not started"\<close>\<close>
  | TypeError                \<comment> \<open>a read on \<^verbatim>\<open>undefined\<close> or \<^verbatim>\<open>null\<close>, a call of what is no function\<close>
  | SenderFailed             \<comment> \<open>\<^verbatim>\<open>grandiose.send\<close> rejected\<close>

datatype outcome = Ok | Err error

text \<open>
  Calls made on a window, messages sent to the console, frames handed to a sender. The
  platform is not modelled beyond them: a call on a window is recorded and returns.
\<close>

datatype wincmd =
    NewWindow handle bool       \<comment> \<open>\<^verbatim>\<open>new BrowserWindow\<close>, with the \<^verbatim>\<open>offscreen\<close> option\<close>
  | BeginFrameSubscription handle
  | EndFrameSubscription handle
  | OnPaint handle
  | SetFrameRate handle int
  | StartPainting handle
  | LoadURL handle string
  | ReloadWindow handle
  | Close handle
  | Destroy handle

datatype event =
    BrowserStart string | BrowserStarted string
  | BrowserReload string | BrowserReloaded string
  | BrowserStop string | BrowserStopped string
  | Capture string
  | Burst string StatSample

record image =
  width :: nat
  height :: nat
  bitmap :: "nat list"

record video_frame =
  xres :: nat
  yres :: nat
  frameRateN :: int
  frameRateD :: int
  lineStrideBytes :: nat
  data :: "nat list"

text \<open>
  The state of the main process: the store of \<^verbatim>\<open>Browser\<close> objects, the registry
  \<^verbatim>\<open>browsers\<close>, the windows already destroyed, the calls made on windows, the messages
  sent to the console, the frames given to \<^verbatim>\<open>ndiSender.video\<close> (with the object that
  sent them), the pending timers (delay in milliseconds and the object whose \<^verbatim>\<open>stop\<close>
  set it) and the rejections of promises that nobody awaits.

  The registry is the plain object of \<^verbatim>\<open>const browsers = {}\<close>: \<open>browsers\<close> holds its own
  properties, and \<open>browsers_proto\<close> its prototype, \<open>None\<close> for the \<^verbatim>\<open>Object.prototype\<close> it
  is created with and \<open>Some r\<close> once an assignment at the key \<^verbatim>\<open>"__proto__"\<close> has put the
  \<^verbatim>\<open>Browser\<close> object \<open>r\<close> in its place.
\<close>

record world =
  heap :: "ref \<Rightarrow> Browser"
  browsers :: "string \<rightharpoonup> ref"
  browsers_proto :: "ref option"
  next_ref :: ref
  next_win :: handle
  destroyed :: "handle set"
  surface :: "wincmd list"
  console :: "event list"
  sent :: "(ref \<times> video_frame) list"
  timers :: "(nat \<times> ref) list"
  unhandled :: "error list"

text \<open>
  What the platform decides: the scale factor of the primary display, the refresh rate
  of the chosen display, whether \<^verbatim>\<open>grandiose.send\<close> resolves, and whatever else runs on
  the event loop while \<^verbatim>\<open>stop\<close> waits for its timer.
\<close>

record env =
  scaleFactor :: rat
  displayFrequency :: nat
  send_ok :: bool
  grace :: "world \<Rightarrow> world"

subsection \<open>Operations\<close>

text \<open>
  A method takes the object it is called on as a reference and the state, and gives back
  the state it leaves, with \<open>Ok\<close> or what it threw where it can throw. An \<^verbatim>\<open>async\<close>
  method is run from its call to its end without another callback in between; the one
  wait that is opened up is that of \<^verbatim>\<open>stop\<close>.
\<close>

definition Browser_constructor :: "string \<Rightarrow> config \<Rightarrow> Browser" where
  "Browser_constructor i c =
     \<lparr> id_b = i, cfg = c, win = None, subscribed = False, ndiSender = None,
       ndiFramesToSkip = Fin 0, frames = 0, burst = None, factor = 1, framerate = 30 \<rparr>"

definition running :: "Browser \<Rightarrow> bool" where
  "running b = (win b \<noteq> None)"

text \<open>Writing an object back, a call on a window, a message to the console.\<close>

definition put :: "ref \<Rightarrow> Browser \<Rightarrow> world \<Rightarrow> world" where
  "put r b w = w \<lparr> heap := (heap w)(r := b) \<rparr>"

definition call :: "wincmd list \<Rightarrow> world \<Rightarrow> world" where
  "call cs w = w \<lparr> surface := surface w @ cs \<rparr>"

definition send :: "event \<Rightarrow> world \<Rightarrow> world" where
  "send e w = w \<lparr> console := console w @ [e] \<rparr>"

text \<open>\<^verbatim>\<open>Math.trunc\<close>, on a rational.\<close>

definition js_trunc :: "rat \<Rightarrow> int" where
  "js_trunc x = (if 0 \<le> x then \<lfloor>x\<rfloor> else \<lceil>x\<rceil>)"

text \<open>
  \<^verbatim>\<open>Math.trunc((D.displayFrequency / this.framerate) - 1)\<close>. A frame rate of zero makes
  the quotient \<^verbatim>\<open>Infinity\<close> (or \<^verbatim>\<open>NaN\<close>, for a refresh rate of zero as well); the
  only use of the result is the comparison in \<^verbatim>\<open>processFrame\<close>, which is false for both,
  so \<open>PosInf\<close> stands for both.
\<close>

definition frames_to_skip :: "nat \<Rightarrow> int \<Rightarrow> jsnum" where
  "frames_to_skip freq rate =
     (if rate = 0 then PosInf
      else Fin (of_int (js_trunc (of_nat freq / of_int rate - 1))))"

text \<open>
  \<^verbatim>\<open>start\<close>. The display, the position and the options of the window are not looked
  into; of the new window only its handle and the \<^verbatim>\<open>offscreen\<close> option are kept. The one
  suspension point is \<^verbatim>\<open>await grandiose.send\<close>, whose rejection ends \<^verbatim>\<open>start\<close> with the
  window created and \<^verbatim>\<open>this.win\<close> still \<^verbatim>\<open>null\<close>.
  \<^verbatim>\<open>
  this.framerate = (this.cfg.N ? parseInt(this.cfg.f) : D.displayFrequency)
  this.ndiSender = (this.cfg.N ? await grandiose.send({ name: title, ... }) : null)
  this.burst = new WeightedAverage(this.framerate, this.framerate / 2)
  if (this.cfg.D) {
      this.ndiFramesToSkip = Math.trunc((D.displayFrequency / this.framerate) - 1)
      if (this.cfg.N || this.cfg.P) {
          win.webContents.beginFrameSubscription(false, ...)
          this.subscribed = true
      }
  }
  else if (this.cfg.N) {
      this.ndiFramesToSkip = 0
      win.webContents.on("paint", ...)
      win.webContents.setFrameRate(this.framerate)
      win.webContents.startPainting()
  }
  ...
  win.loadURL(this.cfg.u)
  this.win = win
  \<close>
\<close>

definition Browser_start :: "env \<Rightarrow> ref \<Rightarrow> world \<Rightarrow> outcome \<times> world" where
  "Browser_start e r w =
     (let b = heap w r;
          c = cfg b;
          title = (case cfg_t c of None \<Rightarrow> ''Vingester'' | Some s \<Rightarrow> s);
          h = next_win w;
          w1 = call [NewWindow h (\<not> cfg_D c)] (w \<lparr> next_win := h + 1 \<rparr>);
          b1 = b \<lparr> factor := scaleFactor e,
                   framerate := (if cfg_N c then cfg_f c else int (displayFrequency e)) \<rparr>
      in if cfg_N c \<and> \<not> send_ok e then (Err SenderFailed, put r b1 w1)
         else
           let b2 = b1 \<lparr> ndiSender := (if cfg_N c then Some title else None),
                         burst := Some (WeightedAverage_constructor (nat (framerate b1))
                                          (of_int (framerate b1) / 2)) \<rparr>;
               (b3, cs) =
                 (if cfg_D c then
                    let b' = b2 \<lparr> ndiFramesToSkip :=
                                    frames_to_skip (displayFrequency e) (framerate b2) \<rparr>
                    in if cfg_N c \<or> cfg_P c
                       then (b' \<lparr> subscribed := True \<rparr>, [BeginFrameSubscription h])
                       else (b', [])
                  else if cfg_N c then
                    (b2 \<lparr> ndiFramesToSkip := Fin 0 \<rparr>,
                     [OnPaint h, SetFrameRate h (framerate b2), StartPainting h])
                  else (b2, []))
           in (Ok, put r (b3 \<lparr> win := Some h \<rparr>) (call (cs @ [LoadURL h (cfg_u c)]) w1)))"

text \<open>
  \<^verbatim>\<open>update\<close> and \<^verbatim>\<open>reconfigure\<close>
  \<^verbatim>\<open>
  reconfigure (cfg) {
      Object.assign(this.cfg, cfg)
      this.update()
  }
  update () {
      if (this.win !== null) {
          if (this.cfg.D) {
              if (this.subscribed && !this.cfg.P) {
                  this.win.webContents.endFrameSubscription()
                  this.subscribed = false
              }
              else if (!this.subscribed && this.cfg.P) {
                  this.win.webContents.beginFrameSubscription(false, ...)
                  this.subscribed = true
              }
          }
      }
  }
  \<close>
\<close>

definition Browser_update :: "ref \<Rightarrow> world \<Rightarrow> world" where
  "Browser_update r w =
     (let b = heap w r in
      case win b of
        None \<Rightarrow> w
      | Some h \<Rightarrow>
          if cfg_D (cfg b) then
            if subscribed b \<and> \<not> cfg_P (cfg b)
            then put r (b \<lparr> subscribed := False \<rparr>) (call [EndFrameSubscription h] w)
            else if \<not> subscribed b \<and> cfg_P (cfg b)
            then put r (b \<lparr> subscribed := True \<rparr>) (call [BeginFrameSubscription h] w)
            else w
          else w)"

definition Browser_reconfigure :: "ref \<Rightarrow> patch \<Rightarrow> world \<Rightarrow> world" where
  "Browser_reconfigure r p w =
     Browser_update r (put r ((heap w r) \<lparr> cfg := Object_assign (cfg (heap w r)) p \<rparr>) w)"

text \<open>
  \<^verbatim>\<open>processFrame\<close>, run to its end for one callback; \<open>dt\<close> is the measured
  \<^verbatim>\<open>t1 - t0\<close>. The preview image (a scaled copy with two channels swapped) is not
  computed: the message \<^verbatim>\<open>capture\<close> is recorded with the surface id alone. Of the
  network frame the fields that do not need the clock are kept.
  \<^verbatim>\<open>
  if (!(this.cfg.N || this.cfg.P))
      return
  ...
  if (this.cfg.P) { ... this.mainWin.webContents.send("capture", ...) }
  if (this.cfg.N) {
      if (this.frames++ > this.ndiFramesToSkip) {
          this.frames = 0
          ...
          await this.ndiSender.video(frame)
      }
  }
  const t1 = Date.now()
  this.burst.record(t1 - t0, (stat) => {
      this.mainWin.webContents.send("burst", { ...stat, id: this.id })
  })
  \<close>
\<close>

definition record_burst :: "ref \<Rightarrow> rat \<Rightarrow> world \<Rightarrow> outcome \<times> world" where
  "record_burst r dt w =
     (let b = heap w r in
      case burst b of
        None \<Rightarrow> (Err TypeError, w)
      | Some t \<Rightarrow>
          let (t', out) = WeightedAverage_record t dt;
              w1 = put r (b \<lparr> burst := Some t' \<rparr>) w
          in (Ok, case out of None \<Rightarrow> w1 | Some s \<Rightarrow> send (Burst (id_b b) s) w1))"

definition Browser_processFrame :: "ref \<Rightarrow> image \<Rightarrow> rat \<Rightarrow> world \<Rightarrow> outcome \<times> world" where
  "Browser_processFrame r img dt w =
     (let b = heap w r in
      if \<not> (cfg_N (cfg b) \<or> cfg_P (cfg b)) then (Ok, w)
      else
        let w1 = (if cfg_P (cfg b) then send (Capture (id_b b)) w else w) in
        if cfg_N (cfg b) then
          if num_less (ndiFramesToSkip b) (Fin (of_int (frames b))) then
            let w2 = put r (b \<lparr> frames := 0 \<rparr>) w1;
                frame = \<lparr> xres = width img, yres = height img,
                          frameRateN = framerate b * 1000, frameRateD = 1000,
                          lineStrideBytes = width img * 4, data = bitmap img \<rparr>
            in case ndiSender b of
                 None \<Rightarrow> (Err TypeError, w2)
               | Some s \<Rightarrow> record_burst r dt (w2 \<lparr> sent := sent w2 @ [(r, frame)] \<rparr>)
          else record_burst r dt (put r (b \<lparr> frames := frames b + 1 \<rparr>) w1)
        else record_burst r dt w1)"

text \<open>A run of callbacks on one surface, each given its image and its measured time.\<close>

definition feed :: "ref \<Rightarrow> (image \<times> rat) list \<Rightarrow> world \<Rightarrow> world" where
  "feed r xs w = foldl (\<lambda>w (img, dt). snd (Browser_processFrame r img dt w)) w xs"

text \<open>
  \<^verbatim>\<open>reload\<close> and \<^verbatim>\<open>destroy\<close>
  \<^verbatim>\<open>
  reload () {
      if (this.win === null)
          throw new Error("still not started")
      this.win.reload()
  }
  destroy () {
      if (this.win === null)
          throw new Error("still not started")
      this.win.destroy()
      this.win = null
  }
  \<close>
\<close>

definition Browser_reload :: "ref \<Rightarrow> world \<Rightarrow> outcome \<times> world" where
  "Browser_reload r w =
     (case win (heap w r) of
        None \<Rightarrow> (Err StillNotStarted, w)
      | Some h \<Rightarrow> (Ok, call [ReloadWindow h] w))"

definition Browser_destroy :: "ref \<Rightarrow> world \<Rightarrow> outcome \<times> world" where
  "Browser_destroy r w =
     (case win (heap w r) of
        None \<Rightarrow> (Err StillNotStarted, w)
      | Some h \<Rightarrow>
          (Ok, put r ((heap w r) \<lparr> win := None \<rparr>)
                 (call [Destroy h] (w \<lparr> destroyed := insert h (destroyed w) \<rparr>))))"

text \<open>The handler of the window's \<^verbatim>\<open>close\<close> event calls \<^verbatim>\<open>destroy\<close>; what it throws
  stays in the handler.\<close>

definition on_close :: "ref \<Rightarrow> world \<Rightarrow> world" where
  "on_close r w = snd (Browser_destroy r w)"

text \<open>
  \<^verbatim>\<open>stop\<close> in its two parts: up to the \<^verbatim>\<open>await\<close> (the check, \<^verbatim>\<open>this.win.close()\<close>,
  the timer set to 1000 milliseconds), and the callback of the timer. Between the two
  the event loop runs whatever \<open>grace e\<close> stands for.
  \<^verbatim>\<open>
  if (this.win === null)
      throw new Error("still not started")
  this.win.close()
  await new Promise((resolve) => {
      setTimeout(() => {
          if (this.win !== null) {
              if (!this.win.isDestroyed())
                  this.win.destroy()
              this.win = null
          }
          resolve()
      }, 1000)
  })
  \<close>
\<close>

definition Browser_stop_begin :: "ref \<Rightarrow> world \<Rightarrow> outcome \<times> world" where
  "Browser_stop_begin r w =
     (case win (heap w r) of
        None \<Rightarrow> (Err StillNotStarted, w)
      | Some h \<Rightarrow> (Ok, (call [Close h] w) \<lparr> timers := timers w @ [(1000, r)] \<rparr>))"

definition Browser_stop_timeout :: "ref \<Rightarrow> world \<Rightarrow> world" where
  "Browser_stop_timeout r w =
     (let w0 = w \<lparr> timers := remove1 (1000, r) (timers w) \<rparr> in
      case win (heap w0 r) of
        None \<Rightarrow> w0
      | Some h \<Rightarrow>
          put r ((heap w0 r) \<lparr> win := None \<rparr>)
            (if h \<in> destroyed w0 then w0
             else call [Destroy h] (w0 \<lparr> destroyed := insert h (destroyed w0) \<rparr>)))"

definition Browser_stop :: "env \<Rightarrow> ref \<Rightarrow> world \<Rightarrow> outcome \<times> world" where
  "Browser_stop e r w =
     (case Browser_stop_begin r w of
        (Err x, w1) \<Rightarrow> (Err x, w1)
      | (Ok, w1) \<Rightarrow> (Ok, Browser_stop_timeout r (grace e w1)))"

section \<open>The dispatcher \<^verbatim>\<open>control\<close>\<close>

text \<open>
  The single-surface actions and \<^verbatim>\<open>add\<close>, each with the argument it reads (the bulk
  actions, which call \<^verbatim>\<open>control\<close> again without awaiting it, are left out). An awaited
  call runs to its end; in \<^verbatim>\<open>del\<close> the promise of \<^verbatim>\<open>stop\<close> is not awaited, so only the
  part of \<^verbatim>\<open>stop\<close> before its \<^verbatim>\<open>await\<close> runs inside \<^verbatim>\<open>control\<close>, and a rejection is
  nobody's to catch. \<^verbatim>\<open>stop\<close> is an \<^verbatim>\<open>async\<close> method: what it throws rejects its promise.
  \<^verbatim>\<open>
  const browsers = {}
  const control = async (action, id, cfg) => {
  if (action === "add") {
      browsers[id] = new Browser(id, cfg, mainWin)
  }
  else if (action === "mod") {
      browsers[id].reconfigure(cfg)
  }
  else if (action === "del") {
      if (browsers[id] !== undefined)
          browsers[id].stop()
      delete browsers[id]
  }
  ...
  else if (action === "start") {
      const browser = browsers[id]
      if (browser === undefined)
          throw new Error("invalid browser id")
      if (browser.running())
          throw new Error("browser already running")
      mainWin.webContents.send("browser-start", id)
      await browser.start()
      mainWin.webContents.send("browser-started", id)
  }
  \<close>
\<close>

text \<open>
  The three accesses to the registry object. A read \<^verbatim>\<open>browsers[id]\<close> finds an own
  property, or else walks the prototype chain: the accessor \<^verbatim>\<open>__proto__\<close> gives the
  prototype itself, the other names of \<^verbatim>\<open>Object.prototype\<close> give its functions, and
  below a \<^verbatim>\<open>Browser\<close> prototype the fields and methods of that object are found as well.
  \<open>Foreign\<close> stands for every value found this way that is neither \<^verbatim>\<open>undefined\<close> nor a
  \<^verbatim>\<open>Browser\<close>: a function, a number, a text, a truth value, \<^verbatim>\<open>null\<close>, a window, a
  sender, a tracker, a configuration or \<^verbatim>\<open>Object.prototype\<close>; none of them has a method
  \<^verbatim>\<open>running\<close>, \<^verbatim>\<open>stop\<close> or \<^verbatim>\<open>reconfigure\<close>, so these calls throw a \<^verbatim>\<open>TypeError\<close>.
  An assignment \<^verbatim>\<open>browsers[id] = b\<close> makes an own property, except at \<^verbatim>\<open>"__proto__"\<close>,
  where the inherited setter swaps the prototype. \<^verbatim>\<open>delete browsers[id]\<close> removes an
  own property and nothing else.
\<close>

definition Object_prototype_names :: "string list" where
  "Object_prototype_names =
     [''constructor'', ''__defineGetter__'', ''__defineSetter__'', ''hasOwnProperty'',
      ''__lookupGetter__'', ''__lookupSetter__'', ''isPrototypeOf'', ''propertyIsEnumerable'',
      ''toString'', ''valueOf'', ''toLocaleString'']"

definition Browser_member_names :: "string list" where
  "Browser_member_names =
     [''id'', ''cfg'', ''win'', ''subscribed'', ''ndiSender'', ''ndiFramesToSkip'', ''frames'',
      ''burst'', ''factor'', ''framerate'', ''mainWin'',
      ''reconfigure'', ''running'', ''start'', ''update'', ''processFrame'', ''reload'',
      ''stop'', ''destroy'']"

text \<open>The names, other than the registry's own, under which a read finds something.\<close>

definition inherited_names :: "world \<Rightarrow> string list" where
  "inherited_names w =
     ''__proto__'' # Object_prototype_names @
     (case browsers_proto w of None \<Rightarrow> [] | Some r \<Rightarrow> Browser_member_names)"

datatype lookup = Undefined | Found ref | Foreign

definition browsers_get :: "world \<Rightarrow> string \<Rightarrow> lookup" where
  "browsers_get w i =
     (case browsers w i of
        Some r \<Rightarrow> Found r
      | None \<Rightarrow>
          if i = ''__proto__'' then
            (case browsers_proto w of None \<Rightarrow> Foreign | Some r \<Rightarrow> Found r)
          else if i \<in> set (inherited_names w) then Foreign
          else Undefined)"

definition browsers_set :: "string \<Rightarrow> ref \<Rightarrow> world \<Rightarrow> world" where
  "browsers_set i r w =
     (if i = ''__proto__'' \<and> browsers w i = None then w \<lparr> browsers_proto := Some r \<rparr>
      else w \<lparr> browsers := (browsers w)(i \<mapsto> r) \<rparr>)"

definition browsers_delete :: "string \<Rightarrow> world \<Rightarrow> world" where
  "browsers_delete i w = w \<lparr> browsers := (browsers w)(i := None) \<rparr>"

datatype action = Add config | Mod patch | Del | Start | Reload | Stop

definition control :: "env \<Rightarrow> action \<Rightarrow> string \<Rightarrow> world \<Rightarrow> outcome \<times> world" where
  "control e a i w =
     (case a of
        Add c \<Rightarrow>
          (Ok, (browsers_set i (next_ref w) (put (next_ref w) (Browser_constructor i c) w))
                 \<lparr> next_ref := next_ref w + 1 \<rparr>)
      | Mod p \<Rightarrow>
          (case browsers_get w i of
             Undefined \<Rightarrow> (Err TypeError, w)
           | Foreign \<Rightarrow> (Err TypeError, w)
           | Found r \<Rightarrow> (Ok, Browser_reconfigure r p w))
      | Del \<Rightarrow>
          (case browsers_get w i of
             Undefined \<Rightarrow> (Ok, browsers_delete i w)
           | Foreign \<Rightarrow> (Err TypeError, w)
           | Found r \<Rightarrow>
               (case Browser_stop_begin r w of
                  (Err x, w1) \<Rightarrow> (Ok, browsers_delete i (w1 \<lparr> unhandled := unhandled w1 @ [x] \<rparr>))
                | (Ok, w1) \<Rightarrow> (Ok, browsers_delete i w1)))
      | Start \<Rightarrow>
          (case browsers_get w i of
             Undefined \<Rightarrow> (Err InvalidBrowserId, w)
           | Foreign \<Rightarrow> (Err TypeError, w)
           | Found r \<Rightarrow>
               if running (heap w r) then (Err BrowserAlreadyRunning, w)
               else (case Browser_start e r (send (BrowserStart i) w) of
                       (Err x, w1) \<Rightarrow> (Err x, w1)
                     | (Ok, w1) \<Rightarrow> (Ok, send (BrowserStarted i) w1)))
      | Reload \<Rightarrow>
          (case browsers_get w i of
             Undefined \<Rightarrow> (Err InvalidBrowserId, w)
           | Foreign \<Rightarrow> (Err TypeError, w)
           | Found r \<Rightarrow>
               if \<not> running (heap w r) then (Err BrowserStillNotRunning, w)
               else (case Browser_reload r (send (BrowserReload i) w) of
                       (Err x, w1) \<Rightarrow> (Err x, w1)
                     | (Ok, w1) \<Rightarrow> (Ok, send (BrowserReloaded i) w1)))
      | Stop \<Rightarrow>
          (case browsers_get w i of
             Undefined \<Rightarrow> (Err InvalidBrowserId, w)
           | Foreign \<Rightarrow> (Err TypeError, w)
           | Found r \<Rightarrow>
               if \<not> running (heap w r) then (Err BrowserStillNotRunning, w)
               else (case Browser_stop e r (send (BrowserStop i) w) of
                       (Err x, w1) \<Rightarrow> (Err x, w1)
                     | (Ok, w1) \<Rightarrow> (Ok, send (BrowserStopped i) w1))))"

text \<open>A state to start from: no surface registered, nothing done yet.\<close>

definition no_config :: config where
  "no_config = \<lparr> cfg_t = None, cfg_u = [], cfg_f = 0, cfg_D = False, cfg_N = False, cfg_P = False \<rparr>"

definition world0 :: world where
  "world0 =
     \<lparr> heap = (\<lambda>r. Browser_constructor [] no_config), browsers = Map.empty,
       browsers_proto = None, next_ref = 0, next_win = 0, destroyed = {}, surface = [], console = [], sent = [],
       timers = [], unhandled = [] \<rparr>"

section \<open>Example surfaces\<close>

text \<open>
  A visible surface (frame subscription) and an off-screen one (paint events), both with
  network video at a target rate of 30, on a display refreshing 60 times a second; a
  2\<times>1 image; and the state after \<^verbatim>\<open>add\<close> and \<^verbatim>\<open>start\<close> of one surface \<^verbatim>\<open>"a"\<close>, which is
  then object 0 with window 0.
\<close>

definition cfg_polled :: config where
  "cfg_polled = \<lparr> cfg_t = None, cfg_u = ''about:blank'', cfg_f = 30,
                   cfg_D = True, cfg_N = True, cfg_P = False \<rparr>"

definition cfg_push :: config where
  "cfg_push = \<lparr> cfg_t = None, cfg_u = ''about:blank'', cfg_f = 30,
                 cfg_D = False, cfg_N = True, cfg_P = False \<rparr>"

definition env60 :: env where
  "env60 = \<lparr> scaleFactor = 1, displayFrequency = 60, send_ok = True, grace = (\<lambda>w. w) \<rparr>"

text \<open>The same platform with a surface \<open>0\<close> whose window reports its closing while
  \<^verbatim>\<open>stop\<close> waits.\<close>

definition env_closing :: env where
  "env_closing = env60 \<lparr> grace := on_close 0 \<rparr>"

definition img0 :: image where
  "img0 = \<lparr> width = 2, height = 1, bitmap = [0, 0, 0, 0, 0, 0, 0, 0] \<rparr>"

definition added :: "config \<Rightarrow> world" where
  "added c = snd (control env60 (Add c) ''a'' world0)"

definition started :: "config \<Rightarrow> world" where
  "started c = snd (control env60 Start ''a'' (added c))"

text \<open>
  The situation in which the check of \<^verbatim>\<open>processFrame\<close> decides alone whether a frame
  goes out: network video on, a sender and a tracker present, a threshold \<open>k\<close> and the
  counter at \<open>c\<close>.
\<close>

definition governed :: "ref \<Rightarrow> nat \<Rightarrow> nat \<Rightarrow> world \<Rightarrow> bool" where
  "governed r k c w =
     (cfg_N (cfg (heap w r)) \<and> ndiSender (heap w r) \<noteq> None \<and> burst (heap w r) \<noteq> None \<and>
      ndiFramesToSkip (heap w r) = Fin (of_nat k) \<and> frames (heap w r) = int c)"

text \<open>
  The same visible surface with the preview on, a patch that raises the target rate to
  60, and the state after the surface has run, taken one frame and been given the patch
  through \<^verbatim>\<open>mod\<close>.
\<close>

definition cfg_preview :: config where
  "cfg_preview = cfg_polled \<lparr> cfg_P := True \<rparr>"

definition rate60 :: patch where
  "rate60 = \<lparr> p_t = None, p_u = None, p_f = Some 60, p_D = None, p_N = None, p_P = None \<rparr>"

definition reconfigured :: world where
  "reconfigured =
     snd (control env60 (Mod rate60) ''a'' (feed 0 [(img0, 1)] (started cfg_preview)))"

text \<open>The skip threshold and the frame counter of an object.\<close>

definition rate_state :: "world \<Rightarrow> ref \<Rightarrow> jsnum \<times> int" where
  "rate_state w q = (ndiFramesToSkip (heap w q), frames (heap w q))"

section \<open>Properties of \<^verbatim>\<open>WeightedAverage\<close>\<close>

subsection \<open>The loop in closed form\<close>

lemma record_loop_closed:
  "n \<le> length vs \<Longrightarrow> i \<le> n \<Longrightarrow>
   record_loop n vs i (a, d, mx, mn) =
     (a + (\<Sum>j = i..<n. vs ! j * of_nat (n - j)), d + (\<Sum>j = i..<n. of_nat (n - j)),
      foldl num_max mx (drop i (take n vs)), foldl num_min mn (drop i (take n vs)))"
proof (induction n vs i "(a, d, mx, mn)" arbitrary: a d mx mn rule: record_loop.induct)
  case (1 n vs i a d mx mn)
  show ?case
  proof (cases "i < n")
    case True
    then have dr: "drop i (take n vs) = vs ! i # drop (i + 1) (take n vs)"
      using "1.prems" by (simp flip: Cons_nth_drop_Suc)
    have s1: "(\<Sum>j = i..<n. vs ! j * of_nat (n - j))
                = vs ! i * of_nat (n - i) + (\<Sum>j = i + 1..<n. vs ! j * of_nat (n - j))"
      using True by (simp add: sum.atLeast_Suc_lessThan)
    have s2: "(\<Sum>j = i..<n. (of_nat (n - j) :: rat))
                = of_nat (n - i) + (\<Sum>j = i + 1..<n. of_nat (n - j))"
      using True by (simp add: sum.atLeast_Suc_lessThan)
    have "record_loop n vs i (a, d, mx, mn) =
            record_loop n vs (i + 1)
              (a + vs ! i * of_nat (n - i), d + of_nat (n - i),
               num_max mx (vs ! i), num_min mn (vs ! i))"
      using True by (subst record_loop.simps) (simp add: num_max_def num_min_def Let_def)
    also have "\<dots> =
        (a + vs ! i * of_nat (n - i) + (\<Sum>j = i + 1..<n. vs ! j * of_nat (n - j)),
         d + of_nat (n - i) + (\<Sum>j = i + 1..<n. of_nat (n - j)),
         foldl num_max (num_max mx (vs ! i)) (drop (i + 1) (take n vs)),
         foldl num_min (num_min mn (vs ! i)) (drop (i + 1) (take n vs)))"
      using True "1.prems" "1.hyps"[OF True refl refl refl refl]
      by (simp add: num_max_def num_min_def)
    finally show ?thesis
      by (simp only: dr s1 s2 foldl_Cons add.assoc)
  next
    case False
    then show ?thesis using "1.prems" by (subst record_loop.simps) simp
  qed
qed

lemma foldl_num_max_Fin: "foldl num_max (Fin m) xs = Fin (Max (set (m # xs)))"
proof (induction xs arbitrary: m)
  case Nil
  then show ?case by simp
next
  case (Cons x xs)
  have "num_max (Fin m) x = Fin (max m x)"
    by (simp add: num_max_def max_def)
  then have "foldl num_max (Fin m) (x # xs) = Fin (Max (set (max m x # xs)))"
    using Cons.IH by simp
  also have "Max (set (max m x # xs)) = Max (set (m # x # xs))"
    by (cases "xs = []") (simp_all add: max.assoc)
  finally show ?case .
qed

lemma foldl_num_min_Fin: "foldl num_min (Fin m) xs = Fin (Min (set (m # xs)))"
proof (induction xs arbitrary: m)
  case Nil
  then show ?case by simp
next
  case (Cons x xs)
  have "num_min (Fin m) x = Fin (min m x)"
    by (auto simp add: num_min_def min_def)
  then have "foldl num_min (Fin m) (x # xs) = Fin (Min (set (min m x # xs)))"
    using Cons.IH by simp
  also have "Min (set (min m x # xs)) = Min (set (m # x # xs))"
    by (cases "xs = []") (simp_all add: min.assoc)
  finally show ?case .
qed

lemma foldl_num_max_NegInf: "xs \<noteq> [] \<Longrightarrow> foldl num_max NegInf xs = Fin (Max (set xs))"
  by (cases xs) (simp_all add: foldl_num_max_Fin num_max_def)

lemma foldl_num_min_PosInf: "xs \<noteq> [] \<Longrightarrow> foldl num_min PosInf xs = Fin (Min (set xs))"
  by (cases xs) (simp_all add: foldl_num_min_Fin num_min_def)

subsection \<open>The window\<close>

lemma val_record: "val (fst (WeightedAverage_record t v)) = v # butlast (val t)"
  by (simp add: WeightedAverage_record_def Let_def split: prod.splits)

lemma len_record: "len (fst (WeightedAverage_record t v)) = len t"
  by (simp add: WeightedAverage_record_def Let_def split: prod.splits)

lemma record_all_snoc:
  "record_all t (vs @ [v]) = fst (WeightedAverage_record (record_all t vs) v)"
  by (simp add: record_all_def)

lemma len_record_all: "len (record_all (WeightedAverage_constructor N K) vs) = N"
proof (induction vs rule: rev_induct)
  case Nil
  show ?case by (simp add: record_all_def WeightedAverage_constructor_def)
next
  case (snoc v vs)
  then show ?case by (simp add: record_all_snoc len_record)
qed

text \<open>After any calls the window holds the newest \<open>N\<close> values, newest first, and behind
  them what is left of the zeros of the constructor.\<close>

lemma val_record_all:
  "1 \<le> N \<Longrightarrow>
   val (record_all (WeightedAverage_constructor N K) vs) = take N (rev vs @ replicate N 0)"
proof (induction vs rule: rev_induct)
  case Nil
  then show ?case by (simp add: record_all_def WeightedAverage_constructor_def)
next
  case (snoc v vs)
  let ?w = "rev vs @ replicate N (0::rat)"
  have "N \<le> length ?w" by simp
  then have "butlast (take N ?w) = take (N - 1) ?w"
    by (rule butlast_take)
  moreover have "take N (v # ?w) = v # take (N - 1) ?w"
    using snoc.prems by (cases N) simp_all
  ultimately show ?case
    using snoc by (simp add: record_all_snoc val_record)
qed

lemma window_after:
  assumes "1 \<le> N"
  shows "v # butlast (val (record_all (WeightedAverage_constructor N K) vs))
           = take N (v # rev vs @ replicate N 0)"
    and "length (val (record_all (WeightedAverage_constructor N K) vs))
           = len (record_all (WeightedAverage_constructor N K) vs)"
proof -
  let ?t = "record_all (WeightedAverage_constructor N K) vs"
  have v: "val ?t = take N (rev vs @ replicate N 0)"
    using assms by (rule val_record_all)
  have "N \<le> length (rev vs @ replicate N (0::rat))" by simp
  then have "butlast (take N (rev vs @ replicate N 0))
               = take (N - 1) (rev vs @ replicate N (0::rat))"
    by (rule butlast_take)
  moreover have "take N (v # rev vs @ replicate N 0) = v # take (N - 1) (rev vs @ replicate N 0)"
    using assms by (cases N) simp_all
  ultimately show "v # butlast (val ?t) = take N (v # rev vs @ replicate N 0)"
    by (simp only: v)
  show "length (val ?t) = len ?t"
    by (simp only: v len_record_all) simp
qed

text \<open>What a sample holds, when the window has the length the loop runs over.\<close>

lemma record_sample:
  assumes "WeightedAverage_record t v = (t', Some s)"
    and "1 \<le> len t" and "length (val t) = len t"
  shows "max_s s = Fin (Max (set (v # butlast (val t))))"
    and "min_s s = Fin (Min (set (v # butlast (val t))))"
    and "avg s = (let w = v # butlast (val t); d = (\<Sum>j = 0..<len t. of_nat (len t - j))
                  in if d = 0 then None
                     else Some ((\<Sum>j = 0..<len t. w ! j * of_nat (len t - j)) / d))"
proof -
  let ?w = "v # butlast (val t)"
  have l: "length ?w = len t" using assms(2,3) by simp
  have loop: "record_loop (len t) ?w 0 (0, 0, NegInf, PosInf) =
     ((\<Sum>j = 0..<len t. ?w ! j * of_nat (len t - j)), (\<Sum>j = 0..<len t. of_nat (len t - j)),
      Fin (Max (set ?w)), Fin (Min (set ?w)))"
    using l
    by (simp add: record_loop_closed foldl_num_max_NegInf foldl_num_min_PosInf del: foldl_Cons)
  from assms(1) have s: "s =
     \<lparr> avg = (let d = (\<Sum>j = 0..<len t. of_nat (len t - j))
               in if d = 0 then None
                  else Some ((\<Sum>j = 0..<len t. ?w ! j * of_nat (len t - j)) / d)),
       min_s = Fin (Min (set ?w)), max_s = Fin (Max (set ?w)),
       tmin = (if num_less (Fin (Max (set ?w))) (min_wa t) then Fin (Max (set ?w)) else min_wa t),
       tmax = (if num_less (max_wa t) (Fin (Max (set ?w))) then Fin (Max (set ?w)) else max_wa t) \<rparr>"
    by (simp add: WeightedAverage_record_def Let_def loop split: if_splits)
  show "max_s s = Fin (Max (set ?w))" by (simp add: s)
  show "min_s s = Fin (Min (set ?w))" by (simp add: s)
  show "avg s = (let w = v # butlast (val t); d = (\<Sum>j = 0..<len t. of_nat (len t - j))
                 in if d = 0 then None
                    else Some ((\<Sum>j = 0..<len t. w ! j * of_nat (len t - j)) / d))"
    by (simp add: s Let_def)
qed

text \<open>With a threshold \<^verbatim>\<open>every\<close> below zero every call reaches the callback.\<close>

lemma record_emits: "every t < 0 \<Longrightarrow> snd (WeightedAverage_record t v) \<noteq> None"
proof -
  assume "every t < 0"
  moreover have "(0::rat) \<le> of_nat (cnt t)" by simp
  ultimately have "every t < of_nat (cnt t)" by (rule less_le_trans)
  then show ?thesis
    by (simp add: WeightedAverage_record_def Let_def split: prod.splits)
qed

subsection \<open>Running minimum and maximum\<close>

text \<open>
  C5. The claim: in every sample that reaches the callback, \<^verbatim>\<open>tmin\<close> is the least and
  \<^verbatim>\<open>tmax\<close> the greatest of all values recorded so far. The code updates \<^verbatim>\<open>this.min\<close>
  from the maximum of the window (\<^verbatim>\<open>if (this.min > max) this.min = max\<close>), so
  \<^verbatim>\<open>tmin\<close> is the least window maximum seen. In a tracker of window 2 that reports from
  the second call on, recording 5 and then 0 gives the sample below: its \<^verbatim>\<open>tmin\<close> is 5,
  the least value recorded is 0 (and is the window minimum of the same sample).
\<close>

theorem running_min_follows_window_max:
  "snd (WeightedAverage_record (record_all (WeightedAverage_constructor 2 0) [5]) 0) =
     Some \<lparr> avg = Some (5 / 3), min_s = Fin 0, max_s = Fin 5, tmin = Fin 5, tmax = Fin 5 \<rparr>"
  by code_simp

subsection \<open>Window minimum and maximum\<close>

text \<open>
  C6, as stated: the maximum of a sample does not exceed, and its minimum does not fall
  below, some value among the last \<open>N\<close> recorded inputs, also while fewer than \<open>N\<close> values
  have been recorded. With a window of 3, after recording 5 and 7 the sample has the
  minimum 0, a zero left from the constructor, below both inputs.
\<close>

theorem window_min_below_recorded:
  "map_option (within_recorded 3 [5, 7])
     (snd (WeightedAverage_record (record_all (WeightedAverage_constructor 3 0) [5]) 7))
   = Some False"
  by code_simp

text \<open>
  C6, amended. For a window length \<open>N\<close> of at least 1, the maximum and the minimum of a
  sample are the greatest and the least entry of the window, and the window is the last
  \<open>N\<close> recorded inputs followed, while fewer than \<open>N\<close> have been recorded, by zeros of the
  constructor. So from the \<open>N\<close>-th call on both are values among the last \<open>N\<close> recorded
  inputs. Here \<open>vs\<close> are the inputs of the earlier calls, oldest first, and \<open>v\<close> is the input
  of the call that emits the sample \<open>s\<close>.
\<close>

theorem window_bounds_padded:
  assumes "1 \<le> N"
    and "WeightedAverage_record (record_all (WeightedAverage_constructor N K) vs) v = (t', Some s)"
  shows "max_s s = Fin (Max (set (take N (v # rev vs @ replicate N 0)))) \<and>
         min_s s = Fin (Min (set (take N (v # rev vs @ replicate N 0)))) \<and>
         (N \<le> length vs + 1 \<longrightarrow>
            max_s s \<in> Fin ` set (take N (v # rev vs)) \<and>
            min_s s \<in> Fin ` set (take N (v # rev vs)))"
proof -
  let ?t = "record_all (WeightedAverage_constructor N K) vs"
  let ?w = "take N (v # rev vs @ replicate N 0)"
  have l: "len ?t = N" by (rule len_record_all)
  note w = window_after[OF assms(1)]
  have mx: "max_s s = Fin (Max (set ?w))" and mn: "min_s s = Fin (Min (set ?w))"
    using record_sample(1,2)[OF assms(2) _ w(2)] assms(1) by (simp_all only: l w(1))
  have ne: "?w \<noteq> []" using assms(1) by (cases N) simp_all
  have "Max (set ?w) \<in> set ?w" "Min (set ?w) \<in> set ?w"
    using ne by (simp_all only: Max_in Min_in finite_set set_empty not_False_eq_True)
  moreover have "N \<le> length vs + 1 \<Longrightarrow> ?w = take N (v # rev vs)"
    using take_append[of N "v # rev vs" "replicate N 0"] by simp
  ultimately show ?thesis
    using mx mn by auto
qed

theorem window_bounds_padded_witness:
  "(1::nat) \<le> 2 \<and>
   WeightedAverage_record (record_all (WeightedAverage_constructor 2 0) [5]) 7
     = (\<lparr> len = 2, every = 0, val = [7, 5], cnt = 0, max_wa = Fin 7, min_wa = Fin 5 \<rparr>,
        Some \<lparr> avg = Some (19 / 3), min_s = Fin 5, max_s = Fin 7, tmin = Fin 5, tmax = Fin 7 \<rparr>) \<and>
   (2::nat) \<le> length [5::rat] + 1 \<and>
   max_s \<lparr> avg = Some (19 / 3), min_s = Fin 5, max_s = Fin 7, tmin = Fin 5, tmax = Fin 7 \<rparr>
     \<in> Fin ` set (take 2 (7 # rev [5])) \<and>
   min_s \<lparr> avg = Some (19 / 3), min_s = Fin 5, max_s = Fin 7, tmin = Fin 5, tmax = Fin 7 \<rparr>
     \<in> Fin ` set (take 2 (7 # rev [5]))"
proof -
  have r: "WeightedAverage_record (record_all (WeightedAverage_constructor 2 0) [5]) 7
     = (\<lparr> len = 2, every = 0, val = [7, 5], cnt = 0, max_wa = Fin 7, min_wa = Fin 5 \<rparr>,
        Some \<lparr> avg = Some (19 / 3), min_s = Fin 5, max_s = Fin 7, tmin = Fin 5, tmax = Fin 7 \<rparr>)"
    by code_simp
  have h: "(1::nat) \<le> 2" by simp
  show ?thesis
    using window_bounds_padded[OF h r] h r by simp
qed

subsection \<open>The weighted average of a ramp\<close>

lemma sum_down: "(\<Sum>j = 0..<N. f (N - j)) = (\<Sum>i = 0..<N. f (Suc i))" for f :: "nat \<Rightarrow> rat"
  by (rule sum.reindex_bij_witness[where i = "\<lambda>i. N - Suc i" and j = "\<lambda>j. N - Suc j"])
     (auto simp: Suc_diff_Suc)

lemma sum_ramp: "(\<Sum>i = 0..<N. (of_nat (Suc i) :: rat)) = of_nat N * (of_nat N + 1) / 2"
  by (induction N) (simp_all add: field_simps)

lemma sum_squares:
  "(\<Sum>i = 0..<N. (of_nat (Suc i) :: rat) * of_nat (Suc i))
     = of_nat N * (of_nat N + 1) * (2 * of_nat N + 1) / 6"
  by (induction N) (simp_all add: field_simps)

lemma sum_list_ramp: "sum_list (map of_nat [1..<Suc N]) = (of_nat N * (of_nat N + 1) / 2 :: rat)"
  by (induction N) (simp_all add: field_simps)

lemma ramp_window:
  assumes "1 \<le> N"
  shows "take N (of_nat N # rev (map of_nat [1..<N]) @ replicate N (0::rat))
           = map of_nat (rev [1..<Suc N])"
proof -
  have "take N ((of_nat N # rev (map of_nat [1..<N])) @ replicate N (0::rat))
          = of_nat N # rev (map of_nat [1..<N])"
    using assms by (subst take_append) simp
  then show ?thesis using assms by (simp add: rev_map)
qed

lemma ramp_nth:
  assumes "j < N"
  shows "map of_nat (rev [1..<Suc N]) ! j = (of_nat (N - j) :: rat)"
proof -
  have "rev [1..<Suc N] ! j = [1..<Suc N] ! (N - Suc j)"
    using assms by (simp add: rev_nth del: upt_Suc)
  also have "\<dots> = N - j"
    using assms by (simp del: upt_Suc)
  finally show ?thesis
    using assms by (simp del: upt_Suc)
qed

text \<open>
  C7, as stated, for every window length. With a window of 1 the one input 1 is its own
  weighted average and its own mean: the average is not strictly greater.
\<close>

theorem ramp_average_window_one:
  "map_option (exceeds_mean [1])
     (snd (WeightedAverage_record (record_all (WeightedAverage_constructor 1 (- 1)) []) 1))
   = Some False"
  by code_simp

text \<open>
  C7, amended. For every window length \<open>N\<close> of at least 2, after recording 1, 2, ..., \<open>N\<close>
  in this order into a new tracker, the sample of the last call has the average
  \<open>(2 N + 1) / 3\<close>, strictly above the unweighted mean \<open>(N + 1) / 2\<close> of these inputs.
\<close>

theorem ramp_average_above_mean:
  assumes "2 \<le> N"
    and "WeightedAverage_record
           (record_all (WeightedAverage_constructor N K) (map of_nat [1..<N])) (of_nat N)
         = (t', Some s)"
  shows "avg s = Some ((2 * of_nat N + 1) / 3) \<and>
         mean (map of_nat [1..<Suc N]) = (of_nat N + 1) / 2 \<and>
         exceeds_mean (map of_nat [1..<Suc N]) s"
proof -
  let ?t = "record_all (WeightedAverage_constructor N K) (map of_nat [1..<N])"
  let ?w = "map of_nat (rev [1..<Suc N]) :: rat list"
  have N1: "1 \<le> N" using assms(1) by simp
  have l: "len ?t = N" by (rule len_record_all)
  note wa = window_after[OF N1]
  have w: "of_nat N # butlast (val ?t) = ?w"
    using wa(1) ramp_window[OF N1] by simp
  have num: "(\<Sum>j = 0..<N. ?w ! j * of_nat (N - j))
               = of_nat N * (of_nat N + 1) * (2 * of_nat N + 1) / 6"
  proof -
    have "(\<Sum>j = 0..<N. ?w ! j * of_nat (N - j))
            = (\<Sum>j = 0..<N. (of_nat (N - j) :: rat) * of_nat (N - j))"
      by (rule sum.cong) (simp_all only: ramp_nth atLeastLessThan_iff)
    also have "\<dots> = (\<Sum>i = 0..<N. (of_nat (Suc i) :: rat) * of_nat (Suc i))"
      by (rule sum_down[where f = "\<lambda>k. of_nat k * of_nat k"])
    finally show ?thesis by (simp only: sum_squares)
  qed
  have den: "(\<Sum>j = 0..<N. (of_nat (N - j) :: rat)) = of_nat N * (of_nat N + 1) / 2"
    using sum_down[where f = of_nat and N = N] by (simp only: sum_ramp)
  have pos: "(0::rat) < of_nat N" using N1 by simp
  then have den0: "of_nat N * (of_nat N + 1) / 2 \<noteq> (0::rat)"
    by simp
  have quot: "(of_nat N * (of_nat N + 1) * (2 * of_nat N + 1) / 6) / (of_nat N * (of_nat N + 1) / 2)
                = ((2 * of_nat N + 1) / 3 :: rat)"
  proof -
    have g: "b \<noteq> 0 \<Longrightarrow> (b * c / 6) / (b / 2) = c / (3::rat)" for b c
      by (simp add: field_simps)
    have "of_nat N * (of_nat N + 1) \<noteq> (0::rat)" using pos by simp
    then show ?thesis by (rule g)
  qed
  have "avg s = (let w = of_nat N # butlast (val ?t); d = (\<Sum>j = 0..<len ?t. of_nat (len ?t - j))
                 in if d = 0 then None
                    else Some ((\<Sum>j = 0..<len ?t. w ! j * of_nat (len ?t - j)) / d))"
    using N1 by (intro record_sample(3)[OF assms(2) _ wa(2)]) (simp only: l)
  then have a: "avg s = Some ((2 * of_nat N + 1) / 3)"
    by (simp only: l w Let_def num den den0 quot if_False)
  have m: "mean (map of_nat [1..<Suc N]) = ((of_nat N + 1) / 2 :: rat)"
  proof -
    have "length (map rat_of_nat [1..<Suc N]) = N" by simp
    then have "mean (map of_nat [1..<Suc N]) = (of_nat N * (of_nat N + 1) / 2) / of_nat N"
      by (simp only: mean_def sum_list_ramp)
    then show ?thesis using pos by simp
  qed
  have "(2::rat) \<le> of_nat N" using assms(1) by simp
  then have "((of_nat N + 1) / 2 :: rat) < (2 * of_nat N + 1) / 3"
    by (simp add: field_simps)
  then show ?thesis
    using a m by (simp add: exceeds_mean_def del: upt_Suc)
qed

theorem ramp_average_above_mean_witness:
  "(2::nat) \<le> 3 \<and>
   WeightedAverage_record
     (record_all (WeightedAverage_constructor 3 (- 1)) (map of_nat [1..<3])) (of_nat 3)
     = (\<lparr> len = 3, every = - 1, val = [3, 2, 1], cnt = 0, max_wa = Fin 3, min_wa = Fin 1 \<rparr>,
        Some \<lparr> avg = Some (7 / 3), min_s = Fin 1, max_s = Fin 3, tmin = Fin 1, tmax = Fin 3 \<rparr>) \<and>
   avg \<lparr> avg = Some (7 / 3), min_s = Fin 1, max_s = Fin 3, tmin = Fin 1, tmax = Fin 3 \<rparr>
     = Some ((2 * of_nat 3 + 1) / 3) \<and>
   mean (map of_nat [1..<Suc 3]) = (of_nat 3 + 1) / 2 \<and>
   exceeds_mean (map of_nat [1..<Suc 3])
     \<lparr> avg = Some (7 / 3), min_s = Fin 1, max_s = Fin 3, tmin = Fin 1, tmax = Fin 3 \<rparr>"
proof -
  have r: "WeightedAverage_record
     (record_all (WeightedAverage_constructor 3 (- 1)) (map of_nat [1..<3])) (of_nat 3)
     = (\<lparr> len = 3, every = - 1, val = [3, 2, 1], cnt = 0, max_wa = Fin 3, min_wa = Fin 1 \<rparr>,
        Some \<lparr> avg = Some (7 / 3), min_s = Fin 1, max_s = Fin 3, tmin = Fin 1, tmax = Fin 3 \<rparr>)"
    by code_simp
  have h: "(2::nat) \<le> 3" by simp
  show ?thesis
    using ramp_average_above_mean[OF h r] h r by simp
qed

section \<open>Properties of \<^verbatim>\<open>Browser\<close>\<close>

lemmas example_defs = added_def started_def control_def Browser_start_def Browser_constructor_def
  put_def call_def send_def world0_def env60_def cfg_polled_def cfg_push_def cfg_preview_def
  frames_to_skip_def js_trunc_def running_def Let_def
  browsers_get_def browsers_set_def browsers_delete_def

lemmas name_defs = inherited_names_def Object_prototype_names_def Browser_member_names_def

subsection \<open>What each method leaves alone\<close>

lemma processFrame_keeps:
  "win (heap (snd (Browser_processFrame r img dt w)) q) = win (heap w q)"
  "cfg (heap (snd (Browser_processFrame r img dt w)) q) = cfg (heap w q)"
  "ndiFramesToSkip (heap (snd (Browser_processFrame r img dt w)) q) = ndiFramesToSkip (heap w q)"
  "browsers (snd (Browser_processFrame r img dt w)) = browsers w"
  by (auto simp add: Browser_processFrame_def record_burst_def put_def send_def Let_def
           split: prod.splits option.splits)

lemma update_keeps:
  "win (heap (Browser_update r w) q) = win (heap w q)"
  "cfg (heap (Browser_update r w) q) = cfg (heap w q)"
  "ndiFramesToSkip (heap (Browser_update r w) q) = ndiFramesToSkip (heap w q)"
  "frames (heap (Browser_update r w) q) = frames (heap w q)"
  by (simp_all add: Browser_update_def put_def call_def Let_def split: option.splits)

lemma reconfigure_keeps:
  "win (heap (Browser_reconfigure r p w) q) = win (heap w q)"
  "ndiFramesToSkip (heap (Browser_reconfigure r p w) q) = ndiFramesToSkip (heap w q)"
  "frames (heap (Browser_reconfigure r p w) q) = frames (heap w q)"
  "cfg (heap (Browser_reconfigure r p w) r) = Object_assign (cfg (heap w r)) p"
  by (simp_all add: Browser_reconfigure_def update_keeps put_def)

lemma start_keeps_frames: "frames (heap (snd (Browser_start e r w)) q) = frames (heap w q)"
  by (simp add: Browser_start_def put_def call_def Let_def split: prod.splits)

lemma others_keep:
  "rate_state (snd (Browser_reload r w)) = rate_state w"
  "rate_state (snd (Browser_stop_begin r w)) = rate_state w"
  "rate_state (Browser_stop_timeout r w) = rate_state w"
  "rate_state (snd (Browser_destroy r w)) = rate_state w"
  by (rule ext, simp add: rate_state_def Browser_reload_def Browser_stop_begin_def
        Browser_stop_timeout_def Browser_destroy_def put_def call_def Let_def
        split: option.splits)+

subsection \<open>The check on the frame counter\<close>

text \<open>One callback: the frame goes out exactly when the counter is above the threshold,
  and the counter then restarts at 0; otherwise it goes up by one.\<close>

lemma governed_step:
  assumes "governed r k c w"
  shows "governed r k (if k < c then 0 else c + 1) (snd (Browser_processFrame r img dt w))"
    and "length (sent (snd (Browser_processFrame r img dt w)))
           = length (sent w) + (if k < c then 1 else 0)"
  using assms
  by (auto simp add: governed_def Browser_processFrame_def record_burst_def put_def send_def Let_def
           split: prod.splits option.splits)

lemma feed_Cons: "feed r ((img, dt) # xs) w = feed r xs (snd (Browser_processFrame r img dt w))"
  by (simp add: feed_def)

text \<open>With the threshold \<open>k\<close>, one callback in \<open>k + 2\<close> hands a frame to the sender.\<close>

lemma feed_count:
  assumes "governed r k c w" and "c \<le> k + 1"
  shows "length (sent (feed r xs w)) = length (sent w) + (length xs + c) div (k + 2)"
  using assms
proof (induction xs arbitrary: w c)
  case Nil
  then show ?case by (simp add: feed_def)
next
  case (Cons x xs)
  obtain img dt where x: "x = (img, dt)" by (cases x)
  let ?w = "snd (Browser_processFrame r img dt w)"
  show ?case
  proof (cases "k < c")
    case True
    then have c: "c = k + 1" using Cons.prems(2) by simp
    have "governed r k 0 ?w" and "length (sent ?w) = length (sent w) + 1"
      using governed_step[OF Cons.prems(1), of img dt] True by simp_all
    then have "length (sent (feed r xs ?w)) = length (sent w) + 1 + (length xs + 0) div (k + 2)"
      using Cons.IH[of 0 ?w] by simp
    moreover have "(length (x # xs) + c) div (k + 2) = 1 + length xs div (k + 2)"
    proof -
      have "length (x # xs) + c = length xs + (k + 2)" by (simp add: c)
      then show ?thesis by (simp only: div_add_self2)
    qed
    ultimately show ?thesis by (simp add: x feed_Cons)
  next
    case False
    have "governed r k (c + 1) ?w" and "length (sent ?w) = length (sent w)"
      using governed_step[OF Cons.prems(1), of img dt] False by simp_all
    then have "length (sent (feed r xs ?w)) = length (sent w) + (length xs + (c + 1)) div (k + 2)"
      using Cons.IH[of "c + 1" ?w] False by simp
    then show ?thesis by (simp add: x feed_Cons)
  qed
qed

lemma started_polled_governed: "governed 0 1 0 (started cfg_polled)"
  by (simp add: governed_def example_defs)

lemma started_push_governed: "governed 0 0 0 (started cfg_push)"
  by (simp add: governed_def example_defs)

text \<open>
  C1. The claim: with the threshold \<open>k\<close> one arrival in \<open>k + 1\<close> is forwarded; a refresh
  rate of 60 and a target rate of 30 give the threshold 1, and 10 callbacks give 5
  frames. The threshold is 1, as claimed. The check \<^verbatim>\<open>this.frames++ > this.ndiFramesToSkip\<close>
  compares the counter before the increment, so it first holds on arrival \<open>k + 2\<close>
  (\<open>feed_count\<close>): of the 10 callbacks, 3 hand a frame to the sender.
\<close>

theorem polled_60_30_forwards_3_of_10:
  "frames_to_skip 60 30 = Fin 1 \<and>
   ndiFramesToSkip (heap (started cfg_polled) 0) = Fin 1 \<and>
   sent (started cfg_polled) = [] \<and>
   length (sent (feed 0 (replicate 10 (img0, 1)) (started cfg_polled))) = 3"
proof -
  have "length (sent (feed 0 (replicate 10 (img0, 1)) (started cfg_polled)))
        = length (sent (started cfg_polled)) + (length (replicate 10 (img0, 1::rat)) + 0) div (1 + 2)"
    by (rule feed_count[OF started_polled_governed]) simp
  moreover have "sent (started cfg_polled) = []"
    by (simp add: example_defs)
  moreover have "frames_to_skip 60 30 = Fin 1"
    by (simp add: frames_to_skip_def js_trunc_def)
  moreover have "ndiFramesToSkip (heap (started cfg_polled) 0) = Fin 1"
    by (simp add: example_defs)
  ultimately show ?thesis by simp
qed

text \<open>
  C2. The claim: a surface started off-screen with network video gets the threshold 0,
  and every paint callback hands a frame to the sender. The threshold is 0 and the paint
  events are asked for at the target rate, as claimed. The same check lets the first
  callback pass without a frame (the counter 0 is not above 0) and then every second one:
  of 10 callbacks, 5 hand a frame to the sender.
\<close>

theorem push_mode_forwards_every_second_paint:
  "ndiFramesToSkip (heap (started cfg_push) 0) = Fin 0 \<and>
   surface (started cfg_push) =
     [NewWindow 0 True, OnPaint 0, SetFrameRate 0 30, StartPainting 0, LoadURL 0 ''about:blank''] \<and>
   sent (started cfg_push) = [] \<and>
   length (sent (feed 0 [(img0, 1)] (started cfg_push))) = 0 \<and>
   length (sent (feed 0 (replicate 10 (img0, 1)) (started cfg_push))) = 5"
proof -
  have "length (sent (feed 0 [(img0, 1)] (started cfg_push)))
        = length (sent (started cfg_push)) + (length [(img0, 1::rat)] + 0) div (0 + 2)"
    by (rule feed_count[OF started_push_governed]) simp
  moreover have "length (sent (feed 0 (replicate 10 (img0, 1)) (started cfg_push)))
        = length (sent (started cfg_push)) + (length (replicate 10 (img0, 1::rat)) + 0) div (0 + 2)"
    by (rule feed_count[OF started_push_governed]) simp
  moreover have "sent (started cfg_push) = []"
    by (simp add: example_defs)
  moreover have "ndiFramesToSkip (heap (started cfg_push) 0) = Fin 0"
    by (simp add: example_defs)
  moreover have "surface (started cfg_push) =
     [NewWindow 0 True, OnPaint 0, SetFrameRate 0 30, StartPainting 0, LoadURL 0 ''about:blank'']"
    by (simp add: example_defs)
  moreover have "(10::nat) div Suc (Suc 0) = 5"
    by (simp flip: numeral_2_eq_2)
  ultimately show ?thesis by simp
qed

subsection \<open>Reconfiguration\<close>

text \<open>
  C8, as stated: when \<^verbatim>\<open>reconfigure\<close> changes the capture mode of a running surface
  (here the target rate, from 30 to 60), the threshold is computed anew and the counter
  restarts. The surface below runs, has taken one frame and then the patch: its
  configuration holds the new rate, its threshold is still the 1 computed at
  \<^verbatim>\<open>start\<close> and its counter is still 1, while a surface started with the new
  configuration has the threshold 0.
\<close>

theorem reconfigure_keeps_threshold_and_counter:
  "running (heap reconfigured 0) \<and>
   cfg (heap reconfigured 0) = cfg_preview \<lparr> cfg_f := 60 \<rparr> \<and>
   ndiFramesToSkip (heap reconfigured 0) = Fin 1 \<and>
   frames (heap reconfigured 0) = 1 \<and>
   ndiFramesToSkip (heap (started (cfg_preview \<lparr> cfg_f := 60 \<rparr>)) 0) = Fin 0"
proof -
  let ?w0 = "started cfg_preview"
  let ?w1 = "feed 0 [(img0, 1)] ?w0"
  have g0: "governed 0 1 0 ?w0"
    by (simp add: governed_def example_defs)
  have w1: "?w1 = snd (Browser_processFrame 0 img0 1 ?w0)"
    by (simp add: feed_def)
  have g1: "governed 0 1 1 ?w1"
    using governed_step(1)[OF g0, of img0 1] by (simp add: w1)
  have k1: "win (heap ?w1 0) = Some 0" "cfg (heap ?w1 0) = cfg_preview"
    "browsers ?w1 ''a'' = Some 0"
    by (simp_all add: w1 processFrame_keeps) (simp_all add: example_defs)
  have r: "reconfigured = Browser_reconfigure 0 rate60 ?w1"
    by (simp add: reconfigured_def control_def browsers_get_def k1(3))
  have "cfg (heap reconfigured 0) = cfg_preview \<lparr> cfg_f := 60 \<rparr>"
    by (simp add: r reconfigure_keeps k1(2))
       (simp add: Object_assign_def rate60_def cfg_preview_def cfg_polled_def)
  moreover have "ndiFramesToSkip (heap reconfigured 0) = Fin 1" "frames (heap reconfigured 0) = 1"
    using g1 by (simp_all add: r reconfigure_keeps governed_def)
  moreover have "running (heap reconfigured 0)"
    by (simp add: r reconfigure_keeps k1(1) running_def)
  moreover have "ndiFramesToSkip (heap (started (cfg_preview \<lparr> cfg_f := 60 \<rparr>)) 0) = Fin 0"
    by (simp add: example_defs)
  ultimately show ?thesis by simp
qed

text \<open>
  C8, amended. \<^verbatim>\<open>reconfigure\<close> merges the new fields and lets \<^verbatim>\<open>update\<close> begin or end
  the frame subscription; neither changes the skip threshold or the frame counter of any
  surface, and nor do \<^verbatim>\<open>mod\<close> through the dispatcher, \<^verbatim>\<open>reload\<close>, the two parts of
  \<^verbatim>\<open>stop\<close> and \<^verbatim>\<open>destroy\<close>. Frame processing changes the counter only (it counts up
  and restarts on a forwarded frame), \<^verbatim>\<open>start\<close> the threshold only.
\<close>

theorem rate_state_writers:
  "rate_state (Browser_reconfigure r p w) = rate_state w \<and>
   rate_state (Browser_update r w) = rate_state w \<and>
   rate_state (snd (control e (Mod p) i w)) = rate_state w \<and>
   rate_state (snd (Browser_reload r w)) = rate_state w \<and>
   rate_state (snd (Browser_stop_begin r w)) = rate_state w \<and>
   rate_state (Browser_stop_timeout r w) = rate_state w \<and>
   rate_state (snd (Browser_destroy r w)) = rate_state w \<and>
   fst (rate_state (snd (Browser_processFrame r img dt w)) q) = fst (rate_state w q) \<and>
   snd (rate_state (snd (Browser_start e r w)) q) = snd (rate_state w q)"
proof -
  have u: "rate_state (Browser_update r' w') = rate_state w'" for r' w'
    by (rule ext) (simp add: rate_state_def update_keeps)
  have c: "rate_state (Browser_reconfigure r' p w') = rate_state w'" for r' w'
    by (rule ext) (simp add: rate_state_def reconfigure_keeps)
  have m: "rate_state (snd (control e (Mod p) i w)) = rate_state w"
    by (simp add: control_def c split: lookup.splits)
  have f: "fst (rate_state (snd (Browser_processFrame r img dt w)) q) = fst (rate_state w q)"
    by (simp add: rate_state_def processFrame_keeps)
  have s: "snd (rate_state (snd (Browser_start e r w)) q) = snd (rate_state w q)"
    by (simp add: rate_state_def start_keeps_frames)
  show ?thesis
    by (simp only: u c m f s others_keep simp_thms)
qed

subsection \<open>Stopping\<close>

text \<open>
  C3. For a running surface, \<^verbatim>\<open>stop\<close> does not throw and sets one timer, of 1000
  milliseconds; whatever the event loop does until the timer fires (\<open>grace e\<close> is any
  function, so also a surface that never reports its closing), after the callback of
  the timer \<^verbatim>\<open>this.win\<close> is \<^verbatim>\<open>null\<close>, and the window the object still held when the
  timer fired is destroyed.
\<close>

theorem stop_reaches_stopped:
  assumes "running (heap w r)"
  shows "fst (Browser_stop_begin r w) = Ok \<and>
         timers (snd (Browser_stop_begin r w)) = timers w @ [(1000, r)] \<and>
         fst (Browser_stop e r w) = Ok \<and>
         win (heap (snd (Browser_stop e r w)) r) = None \<and>
         (\<forall>h. win (heap (grace e (snd (Browser_stop_begin r w))) r) = Some h \<longrightarrow>
              h \<in> destroyed (snd (Browser_stop e r w)))"
proof -
  from assms obtain h0 where h0: "win (heap w r) = Some h0"
    by (auto simp: running_def)
  let ?w1 = "(call [Close h0] w) \<lparr> timers := timers w @ [(1000, r)] \<rparr>"
  have b: "Browser_stop_begin r w = (Ok, ?w1)"
    by (simp add: Browser_stop_begin_def h0)
  have s: "Browser_stop e r w = (Ok, Browser_stop_timeout r (grace e ?w1))"
    by (simp add: Browser_stop_def b)
  have t1: "win (heap (Browser_stop_timeout r w') r) = None" for w'
    by (simp add: Browser_stop_timeout_def put_def call_def Let_def split: option.splits)
  have t2: "win (heap w' r) = Some h \<Longrightarrow> h \<in> destroyed (Browser_stop_timeout r w')" for w' h
    by (simp add: Browser_stop_timeout_def put_def call_def Let_def)
  show ?thesis
    using t1 t2 by (simp add: b s call_def)
qed

theorem stop_reaches_stopped_witness:
  "running (heap (started cfg_polled) 0) \<and>
   fst (Browser_stop env60 0 (started cfg_polled)) = Ok \<and>
   win (heap (snd (Browser_stop env60 0 (started cfg_polled))) 0) = None \<and>
   win (heap (grace env60 (snd (Browser_stop_begin 0 (started cfg_polled)))) 0) = Some 0 \<and>
   0 \<in> destroyed (snd (Browser_stop env60 0 (started cfg_polled))) \<and>
   fst (Browser_stop env_closing 0 (started cfg_polled)) = Ok \<and>
   win (heap (snd (Browser_stop env_closing 0 (started cfg_polled))) 0) = None"
proof -
  have r: "running (heap (started cfg_polled) 0)"
    by (simp add: example_defs)
  have g: "win (heap (grace env60 (snd (Browser_stop_begin 0 (started cfg_polled)))) 0) = Some 0"
    by (simp add: Browser_stop_begin_def example_defs)
  show ?thesis
    using stop_reaches_stopped[OF r, of env60] stop_reaches_stopped[OF r, of env_closing] r g
    by simp
qed

section \<open>Properties of the dispatcher\<close>

subsection \<open>Reading the registry\<close>

lemma own_found: "browsers w i = Some r \<Longrightarrow> browsers_get w i = Found r"
  by (simp add: browsers_get_def)

lemma found_own: "browsers_get w i = Found r \<Longrightarrow> i \<noteq> ''__proto__'' \<Longrightarrow> browsers w i = Some r"
  by (simp add: browsers_get_def split: option.splits if_splits)

lemma not_inherited_undefined:
  "browsers w i = None \<Longrightarrow> i \<notin> set (inherited_names w) \<Longrightarrow> browsers_get w i = Undefined"
  by (auto simp add: browsers_get_def inherited_names_def)

text \<open>\<^verbatim>\<open>add\<close> makes an own property at every id but \<^verbatim>\<open>"__proto__"\<close>.\<close>

lemma add_registers:
  "i \<noteq> ''__proto__'' \<Longrightarrow> browsers (snd (control e (Add c) i w)) i = Some (next_ref w)"
  by (simp add: control_def browsers_set_def put_def)

text \<open>
  At the id \<^verbatim>\<open>"__proto__"\<close>, \<^verbatim>\<open>add\<close> makes no own property and \<^verbatim>\<open>del\<close> removes none:
  after both the read still finds the surface. At the never registered id
  \<^verbatim>\<open>"toString"\<close> the read finds a function, on which \<^verbatim>\<open>running\<close> and \<^verbatim>\<open>stop\<close> are no
  methods.
\<close>

lemma registry_at_proto:
  "browsers (snd (control env60 (Add cfg_polled) ''__proto__'' world0)) = Map.empty \<and>
   fst (control env60 Del ''__proto__'' (snd (control env60 (Add cfg_polled) ''__proto__'' world0)))
     = Ok \<and>
   browsers_get
     (snd (control env60 Del ''__proto__'' (snd (control env60 (Add cfg_polled) ''__proto__'' world0))))
     ''__proto__'' = Found 0"
  by (simp add: Browser_stop_begin_def example_defs)

lemma registry_at_toString:
  "browsers_get world0 ''toString'' = Foreign \<and>
   control env60 Start ''toString'' world0 = (Err TypeError, world0) \<and>
   control env60 Reload ''toString'' world0 = (Err TypeError, world0) \<and>
   control env60 Stop ''toString'' world0 = (Err TypeError, world0) \<and>
   control env60 Del ''toString'' world0 = (Err TypeError, world0)"
  by (simp add: control_def browsers_get_def world0_def name_defs)

subsection \<open>Invalid transitions\<close>

text \<open>
  C4. For a surface that the registry gives for the id (as it does for every own
  property, \<open>own_found\<close>): \<^verbatim>\<open>start\<close> while it runs throws
  \<^verbatim>\<open>"browser already running"\<close>; \<^verbatim>\<open>reload\<close> and \<^verbatim>\<open>stop\<close> while it does not run throw
  \<^verbatim>\<open>"browser still not running"\<close> (and the methods themselves would throw
  \<^verbatim>\<open>"still not started"\<close>). In each case the whole state is as before: every object, the
  registry, the calls made on windows and the messages sent to the console.
\<close>

theorem invalid_transition_rejected:
  assumes "browsers_get w i = Found r"
  shows "(running (heap w r) \<longrightarrow> control e Start i w = (Err BrowserAlreadyRunning, w)) \<and>
         (\<not> running (heap w r) \<longrightarrow>
            control e Reload i w = (Err BrowserStillNotRunning, w) \<and>
            control e Stop i w = (Err BrowserStillNotRunning, w) \<and>
            Browser_reload r w = (Err StillNotStarted, w) \<and>
            Browser_stop e r w = (Err StillNotStarted, w))"
  using assms
  by (simp add: control_def running_def Browser_reload_def Browser_stop_def Browser_stop_begin_def)

theorem invalid_transition_rejected_witness:
  "browsers_get (started cfg_polled) ''a'' = Found 0 \<and> running (heap (started cfg_polled) 0) \<and>
   control env60 Start ''a'' (started cfg_polled)
     = (Err BrowserAlreadyRunning, started cfg_polled) \<and>
   browsers_get (added cfg_polled) ''a'' = Found 0 \<and> \<not> running (heap (added cfg_polled) 0) \<and>
   control env60 Reload ''a'' (added cfg_polled)
     = (Err BrowserStillNotRunning, added cfg_polled) \<and>
   control env60 Stop ''a'' (added cfg_polled)
     = (Err BrowserStillNotRunning, added cfg_polled)"
proof -
  have a: "browsers_get (started cfg_polled) ''a'' = Found 0" "running (heap (started cfg_polled) 0)"
    by (simp_all add: example_defs)
  have b: "browsers_get (added cfg_polled) ''a'' = Found 0" "\<not> running (heap (added cfg_polled) 0)"
    by (simp_all add: example_defs)
  show ?thesis
    using invalid_transition_rejected[OF a(1), of env60]
          invalid_transition_rejected[OF b(1), of env60] a b
    by simp
qed

subsection \<open>Ids that the registry does not know\<close>

text \<open>
  C9, as stated: for an id that is not registered, each of \<^verbatim>\<open>mod\<close>, \<^verbatim>\<open>del\<close>,
  \<^verbatim>\<open>start\<close>, \<^verbatim>\<open>reload\<close> and \<^verbatim>\<open>stop\<close> fails with \<^verbatim>\<open>"invalid browser id"\<close>. With nothing
  registered, \<^verbatim>\<open>del\<close> at the id \<^verbatim>\<open>"a"\<close> returns without an error, and \<^verbatim>\<open>mod\<close> fails on
  the call of a method of \<^verbatim>\<open>undefined\<close>, not with that message; at the id
  \<^verbatim>\<open>"toString"\<close>, which the registry object inherits, \<^verbatim>\<open>start\<close> and \<^verbatim>\<open>del\<close> fail on the
  call of a method that the function found there does not have.
\<close>

theorem unknown_id_del_and_mod:
  "browsers world0 ''a'' = None \<and>
   control env60 Del ''a'' world0 = (Ok, world0) \<and>
   control env60 (Mod rate60) ''a'' world0 = (Err TypeError, world0) \<and>
   browsers world0 ''toString'' = None \<and>
   control env60 Start ''toString'' world0 = (Err TypeError, world0) \<and>
   control env60 Del ''toString'' world0 = (Err TypeError, world0)"
  by (simp add: control_def browsers_get_def browsers_delete_def world0_def name_defs)

text \<open>
  C9, amended. For an id that is not registered and is not a name that the registry
  object inherits (\<^verbatim>\<open>"__proto__"\<close>, the names of \<^verbatim>\<open>Object.prototype\<close> such as
  \<^verbatim>\<open>"toString"\<close> and \<^verbatim>\<open>"constructor"\<close>, and, once a surface has been added under
  \<^verbatim>\<open>"__proto__"\<close>, the names of the fields and methods of a \<^verbatim>\<open>Browser\<close>), \<^verbatim>\<open>start\<close>,
  \<^verbatim>\<open>reload\<close> and \<^verbatim>\<open>stop\<close> throw \<^verbatim>\<open>"invalid browser id"\<close> and \<^verbatim>\<open>del\<close> returns
  without an error; each of the four leaves the whole state as it was.
\<close>

theorem unknown_id_rejected:
  assumes "browsers w i = None" and "i \<notin> set (inherited_names w)"
  shows "control e Start i w = (Err InvalidBrowserId, w) \<and>
         control e Reload i w = (Err InvalidBrowserId, w) \<and>
         control e Stop i w = (Err InvalidBrowserId, w) \<and>
         control e Del i w = (Ok, w)"
proof -
  have u: "browsers_get w i = Undefined"
    using assms by (rule not_inherited_undefined)
  have "(browsers w)(i := None) = browsers w"
    using assms(1) by (simp add: fun_upd_idem)
  then show ?thesis
    by (simp add: control_def u browsers_delete_def)
qed

theorem unknown_id_rejected_witness:
  "browsers world0 ''a'' = None \<and> ''a'' \<notin> set (inherited_names world0) \<and>
   control env60 Start ''a'' world0 = (Err InvalidBrowserId, world0) \<and>
   control env60 Reload ''a'' world0 = (Err InvalidBrowserId, world0) \<and>
   control env60 Stop ''a'' world0 = (Err InvalidBrowserId, world0) \<and>
   control env60 Del ''a'' world0 = (Ok, world0)"
proof -
  have n: "browsers world0 ''a'' = None" by (simp add: world0_def)
  have m: "''a'' \<notin> set (inherited_names world0)" by (simp add: world0_def name_defs)
  show ?thesis using unknown_id_rejected[OF n m, of env60] n m by simp
qed

subsection \<open>Deleting a surface\<close>

text \<open>
  C10, as stated: for a registered surface that does not run, \<^verbatim>\<open>del\<close> throws
  \<^verbatim>\<open>"still not started"\<close> and the surface stays registered. After \<^verbatim>\<open>add\<close> alone the
  surface \<^verbatim>\<open>"a"\<close> is registered and does not run; \<^verbatim>\<open>del\<close> returns without an error and
  the id is gone from the registry.
\<close>

theorem del_not_running_removes:
  "browsers (added cfg_polled) ''a'' = Some 0 \<and> \<not> running (heap (added cfg_polled) 0) \<and>
   fst (control env60 Del ''a'' (added cfg_polled)) = Ok \<and>
   browsers (snd (control env60 Del ''a'' (added cfg_polled))) ''a'' = None"
  by (simp add: Browser_stop_begin_def example_defs)

text \<open>
  C10, amended. For a surface that the registry gives for an id other than
  \<^verbatim>\<open>"__proto__"\<close> (it is then an own property of the registry, as \<^verbatim>\<open>add\<close> makes one at
  every other id), \<^verbatim>\<open>del\<close> returns without an error and removes that property, so that
  the registry no longer gives the surface for the id, whether the surface runs or not
  (at \<^verbatim>\<open>"__proto__"\<close> it still does, \<open>registry_at_proto\<close>). For a surface that does not run, the \<^verbatim>\<open>"still not started"\<close>
  of \<^verbatim>\<open>stop\<close> rejects a promise that \<^verbatim>\<open>del\<close> does not await, and nothing else changes;
  for a running one no promise is rejected.
\<close>

theorem del_removes_registered:
  assumes "browsers_get w i = Found r" and "i \<noteq> ''__proto__''"
  shows "fst (control e Del i w) = Ok \<and>
         browsers (snd (control e Del i w)) = (browsers w)(i := None) \<and>
         browsers_get (snd (control e Del i w)) i \<noteq> Found r \<and>
         (\<not> running (heap w r) \<longrightarrow>
            snd (control e Del i w) =
              w \<lparr> unhandled := unhandled w @ [StillNotStarted],
                  browsers := (browsers w)(i := None) \<rparr>) \<and>
         (running (heap w r) \<longrightarrow> unhandled (snd (control e Del i w)) = unhandled w)"
proof -
  have own: "browsers w i = Some r"
    using assms by (rule found_own)
  have b: "browsers (snd (control e Del i w)) = (browsers w)(i := None)"
    using assms(1)
    by (auto simp add: control_def Browser_stop_begin_def browsers_delete_def call_def
             split: option.splits)
  then have "browsers (snd (control e Del i w)) i = None"
    by simp
  then have g: "browsers_get (snd (control e Del i w)) i \<noteq> Found r"
    using assms(2) by (simp add: browsers_get_def)
  show ?thesis
    using assms(1) b g
    by (auto simp add: control_def running_def Browser_stop_begin_def browsers_delete_def call_def
             split: option.splits)
qed

theorem del_removes_registered_witness:
  "browsers_get (added cfg_polled) ''a'' = Found 0 \<and> ''a'' \<noteq> ''__proto__'' \<and>
   \<not> running (heap (added cfg_polled) 0) \<and>
   fst (control env60 Del ''a'' (added cfg_polled)) = Ok \<and>
   browsers (snd (control env60 Del ''a'' (added cfg_polled)))
     = (browsers (added cfg_polled))(''a'' := None) \<and>
   browsers_get (snd (control env60 Del ''a'' (added cfg_polled))) ''a'' \<noteq> Found 0 \<and>
   snd (control env60 Del ''a'' (added cfg_polled)) =
     (added cfg_polled) \<lparr> unhandled := unhandled (added cfg_polled) @ [StillNotStarted],
           browsers := (browsers (added cfg_polled))(''a'' := None) \<rparr> \<and>
   browsers_get (started cfg_polled) ''a'' = Found 0 \<and> running (heap (started cfg_polled) 0) \<and>
   unhandled (snd (control env60 Del ''a'' (started cfg_polled))) = unhandled (started cfg_polled)"
proof -
  have n: "''a'' \<noteq> ''__proto__''" by simp
  have a: "browsers_get (started cfg_polled) ''a'' = Found 0" "running (heap (started cfg_polled) 0)"
    by (simp_all add: example_defs)
  have b: "browsers_get (added cfg_polled) ''a'' = Found 0" "\<not> running (heap (added cfg_polled) 0)"
    by (simp_all add: example_defs)
  show ?thesis
    using del_removes_registered[OF a(1) n, of env60] del_removes_registered[OF b(1) n, of env60]
          a b n
    by blast
qed

end
